theory Spec2Isabelle
  imports Complex_Main
begin

section \<open>Strings and text files\<close>

text \<open>
  The source is \<^verbatim>\<open>control.py\<close>. A Python \<^verbatim>\<open>str\<close> is a \<^typ>\<open>string\<close>. A text file is
  the list of its lines as the file iterator yields them: every line keeps its
  terminator, the last line may lack one.
\<close>

abbreviation dq :: char where "dq \<equiv> CHR 0x22"
abbreviation nl :: char where "nl \<equiv> CHR 0x0A"
abbreviation cr :: char where "cr \<equiv> CHR 0x0D"

text \<open>\<^verbatim>\<open>s.split(c)\<close> for a one-character separator: never empty, keeps empty fields.\<close>

fun split_on :: "char \<Rightarrow> string \<Rightarrow> string list" where
  "split_on c [] = [[]]"
| "split_on c (x # xs) =
     (if x = c then [] # split_on c xs
      else (case split_on c xs of
              [] \<Rightarrow> [[x]]
            | r # rs \<Rightarrow> (x # r) # rs))"

fun startswith :: "string \<Rightarrow> string \<Rightarrow> bool" where
  "startswith [] s = True"
| "startswith (p # ps) [] = False"
| "startswith (p # ps) (x # xs) = (p = x \<and> startswith ps xs)"

text \<open>\<^verbatim>\<open>sub in s\<close> on strings: \<open>sub\<close> occurs in \<open>s\<close> as a contiguous piece.\<close>

fun contains :: "string \<Rightarrow> string \<Rightarrow> bool" where
  "contains sub [] = (sub = [])"
| "contains sub (x # xs) = (startswith sub (x # xs) \<or> contains sub xs)"

section \<open>The header line (\<^verbatim>\<open>load_flight_data\<close>, lines 78 to 87)\<close>

text \<open>The marker \<^verbatim>\<open>'"Ion N"'\<close>, quotes included.\<close>

definition marker :: string where
  "marker = dq # ''Ion N'' @ [dq]"

text \<open>
  One round of the loop \<^verbatim>\<open>for i, idx in enumerate(df_index)\<close>. \<open>idx\<close> is the
  element as it was when the round began. The first assignment stores
  \<^verbatim>\<open>idx[0:-1]\<close>, the second then stores \<^verbatim>\<open>idx[1:-1]\<close>, computed from \<open>idx\<close>
  again, in the same slot.
\<close>

definition strip_step :: "nat \<Rightarrow> string list \<Rightarrow> string list" where
  "strip_step i df_index =
     (let idx = df_index ! i;
          df1 = (if nl \<in> set idx then df_index[i := butlast idx] else df_index)
      in df1[i := butlast (tl idx)])"

definition strip_index :: "string list \<Rightarrow> string list" where
  "strip_index df_index = fold strip_step [0..<length df_index] df_index"

text \<open>
  The scan: \<open>df_index\<close> starts as the empty list, the first line holding the
  marker sets it and ends the loop, a file without such a line leaves it empty.
\<close>

fun header_scan :: "string list \<Rightarrow> string list" where
  "header_scan [] = []"
| "header_scan (line # rest) =
     (if contains marker line then strip_index (split_on (CHR '','') line)
      else header_scan rest)"

section \<open>Errors\<close>

text \<open>
  The source defines no exception of its own and catches none: what the
  libraries raise leaves the function. Each constructor is one of those
  exceptions, named after where it is raised.
  \<^item> \<open>FileNotFoundError\<close>: \<^verbatim>\<open>open\<close> on a missing file.
  \<^item> \<open>ConversionError\<close>: the \<^verbatim>\<open>ValueError\<close> of \<^verbatim>\<open>numpy.loadtxt\<close> for a token
    that is no number.
  \<^item> \<open>ColumnCountError\<close>: the \<^verbatim>\<open>ValueError\<close> of \<^verbatim>\<open>numpy.loadtxt\<close> for a row
    whose number of fields differs from the first row's.
  \<^item> \<open>FrameDimError\<close>, \<open>FrameShapeError\<close>: the \<^verbatim>\<open>ValueError\<close> of
    \<^verbatim>\<open>pandas.DataFrame\<close> for a zero-dimensional array, and for a number of
    labels that differs from the number of columns.
  \<^item> \<open>InsertError\<close>: the \<^verbatim>\<open>ValueError\<close> of \<^verbatim>\<open>reset_index\<close> when the column it
    inserts exists already.
  \<^item> \<open>KeyError\<close>: a column label that the table lacks.
  \<^item> \<open>AttributeError\<close>: \<^verbatim>\<open>.unique()\<close> on a selection that is a table, not a
    column (the label occurs more than once).
  \<^item> \<open>IndexingError\<close>: a boolean mask that lacks a row label of the table it
    selects from.
  \<^item> \<open>IndexError\<close>: \<^verbatim>\<open>voltages[1]\<close> on a shorter vector.
  \<^item> \<open>NonScalarResult\<close> is no exception: the penalty returned is a pandas
    series instead of a number (the label \<^verbatim>\<open>Y\<close> occurs more than once).
\<close>

datatype error =
    FileNotFoundError
  | ConversionError
  | ColumnCountError
  | FrameDimError
  | FrameShapeError
  | InsertError
  | KeyError string
  | AttributeError
  | IndexingError
  | IndexError
  | NonScalarResult

section \<open>Numbers\<close>

text \<open>
  A cell of a table is a binary64 number of numpy: a finite number, one of the
  two infinities, or NaN. The finite numbers are idealised as reals (no
  rounding, no overflow); the special values behave as in IEEE 754.
\<close>

datatype fval = Num real | PosInf | NegInf | NaN

text \<open>\<^verbatim>\<open>a - b\<close>, \<^verbatim>\<open>a + b\<close> and \<^verbatim>\<open>a**2\<close>.\<close>

fun fsub :: "fval \<Rightarrow> fval \<Rightarrow> fval" where
  "fsub NaN b = NaN"
| "fsub a NaN = NaN"
| "fsub (Num a) (Num b) = Num (a - b)"
| "fsub (Num a) PosInf = NegInf"
| "fsub (Num a) NegInf = PosInf"
| "fsub PosInf PosInf = NaN"
| "fsub PosInf b = PosInf"
| "fsub NegInf NegInf = NaN"
| "fsub NegInf b = NegInf"

fun fadd :: "fval \<Rightarrow> fval \<Rightarrow> fval" where
  "fadd NaN b = NaN"
| "fadd a NaN = NaN"
| "fadd (Num a) (Num b) = Num (a + b)"
| "fadd (Num a) b = b"
| "fadd PosInf NegInf = NaN"
| "fadd PosInf b = PosInf"
| "fadd NegInf PosInf = NaN"
| "fadd NegInf b = NegInf"

fun fsquare :: "fval \<Rightarrow> fval" where
  "fsquare (Num a) = Num (a\<^sup>2)"
| "fsquare PosInf = PosInf"
| "fsquare NegInf = PosInf"
| "fsquare NaN = NaN"

text \<open>\<^verbatim>\<open>a == b\<close>: NaN equals nothing, itself included.\<close>

definition feq :: "fval \<Rightarrow> fval \<Rightarrow> bool" where
  "feq a b \<longleftrightarrow> a \<noteq> NaN \<and> a = b"

text \<open>\<^verbatim>\<open>a <= b\<close> for two values that are not NaN.\<close>

fun fle :: "fval \<Rightarrow> fval \<Rightarrow> bool" where
  "fle NegInf b = True"
| "fle a PosInf = True"
| "fle (Num a) (Num b) = (a \<le> b)"
| "fle a b = False"

section \<open>The numeric body (\<^verbatim>\<open>numpy.loadtxt\<close>, line 90)\<close>

text \<open>
  \<^verbatim>\<open>np.loadtxt(name, skiprows=12, delimiter=',')\<close> is library code. Its text
  handling is modelled as numpy documents it; the conversion of one token to a
  number (\<^verbatim>\<open>float\<close>) is the parameter \<open>float_of\<close>, \<open>None\<close> where the token is
  refused.

  A line is cut at the first comment character \<^verbatim>\<open>#\<close>, loses carriage returns
  and line feeds at both ends, and is split at the delimiter; a line with
  nothing left carries no row.
\<close>

definition strip_eol :: "string \<Rightarrow> string" where
  "strip_eol s =
     rev (dropWhile (\<lambda>c. c = cr \<or> c = nl) (rev (dropWhile (\<lambda>c. c = cr \<or> c = nl) s)))"

definition split_line :: "string \<Rightarrow> string list" where
  "split_line line =
     (let s = strip_eol (takeWhile (\<lambda>c. c \<noteq> CHR ''#'') line)
      in if s = [] then [] else split_on (CHR '','') s)"

text \<open>The lines that carry a row, as token lists: the first 12 lines are skipped.\<close>

definition body_tokens :: "string list \<Rightarrow> string list list" where
  "body_tokens lines = filter (\<lambda>r. r \<noteq> []) (map split_line (drop 12 lines))"

fun convert_row :: "(string \<Rightarrow> fval option) \<Rightarrow> string list \<Rightarrow> fval list option" where
  "convert_row float_of [] = Some []"
| "convert_row float_of (t # ts) =
     (case float_of t of
        None \<Rightarrow> None
      | Some v \<Rightarrow> (case convert_row float_of ts of
                    None \<Rightarrow> None
                  | Some vs \<Rightarrow> Some (v # vs)))"

text \<open>
  Rows are read in order; each row is first checked against the number of
  fields \<open>N\<close> of the first row, then converted. The first failure ends the read.
\<close>

fun read_rows ::
  "(string \<Rightarrow> fval option) \<Rightarrow> nat \<Rightarrow> string list list \<Rightarrow> error + fval list list" where
  "read_rows float_of N [] = Inr []"
| "read_rows float_of N (r # rs) =
     (if length r \<noteq> N then Inl ColumnCountError
      else (case convert_row float_of r of
              None \<Rightarrow> Inl ConversionError
            | Some vs \<Rightarrow> (case read_rows float_of N rs of
                          Inl e \<Rightarrow> Inl e
                        | Inr vss \<Rightarrow> Inr (vs # vss))))"

definition body_rows :: "(string \<Rightarrow> fval option) \<Rightarrow> string list \<Rightarrow> error + fval list list" where
  "body_rows float_of lines =
     (let toks = body_tokens lines
      in read_rows float_of (case toks of [] \<Rightarrow> 0 | r # _ \<Rightarrow> length r) toks)"

text \<open>
  The array returned has every axis of length one removed: no row gives an
  empty one-dimensional array, one row of one field a zero-dimensional array,
  one row or one column a one-dimensional array.
\<close>

datatype ndarray = Arr0 fval | Arr1 "fval list" | Arr2 "fval list list"

definition squeeze :: "fval list list \<Rightarrow> ndarray" where
  "squeeze rows =
     (case rows of
        [] \<Rightarrow> Arr1 []
      | [r] \<Rightarrow> (case r of [x] \<Rightarrow> Arr0 x | _ \<Rightarrow> Arr1 r)
      | r # _ \<Rightarrow> (if length r = 1 then Arr1 (map hd rows) else Arr2 rows))"

definition loadtxt :: "(string \<Rightarrow> fval option) \<Rightarrow> string list \<Rightarrow> error + ndarray" where
  "loadtxt float_of lines =
     (case body_rows float_of lines of
        Inl e \<Rightarrow> Inl e
      | Inr rows \<Rightarrow> Inr (squeeze rows))"

section \<open>Tables (\<^verbatim>\<open>pandas.DataFrame\<close>, lines 91 to 93)\<close>

text \<open>
  A table has row labels (\<open>index\<close>), column labels (\<open>columns\<close>) and its rows
  (\<open>cells\<close>). An integer stored in a cell is the number of the same value.
\<close>

record frame =
  index :: "nat list"
  columns :: "string list"
  cells :: "fval list list"

text \<open>
  \<^verbatim>\<open>pd.DataFrame(flight_data, columns=df_index)\<close>: a one-dimensional array is one
  column, a zero-dimensional one is refused, and the labels must be as many as
  the columns. Rows are labelled from 0.
\<close>

definition frame_of_rows :: "fval list list \<Rightarrow> nat \<Rightarrow> string list \<Rightarrow> error + frame" where
  "frame_of_rows rows k labels =
     (if length labels \<noteq> k then Inl FrameShapeError
      else Inr \<lparr>index = [0..<length rows], columns = labels, cells = rows\<rparr>)"

definition DataFrame :: "ndarray \<Rightarrow> string list \<Rightarrow> error + frame" where
  "DataFrame arr labels =
     (case arr of
        Arr0 x \<Rightarrow> Inl FrameDimError
      | Arr1 xs \<Rightarrow> frame_of_rows (map (\<lambda>x. [x]) xs) 1 labels
      | Arr2 rows \<Rightarrow> frame_of_rows rows (case rows of [] \<Rightarrow> 0 | r # _ \<Rightarrow> length r) labels)"

text \<open>\<^verbatim>\<open>xs[::2]\<close> is \<open>every_other xs\<close>, \<^verbatim>\<open>xs[1::2]\<close> is \<open>every_other (drop 1 xs)\<close>.\<close>

fun every_other :: "'a list \<Rightarrow> 'a list" where
  "every_other [] = []"
| "every_other [x] = [x]"
| "every_other (x # y # zs) = x # every_other zs"

definition slice2 :: "nat \<Rightarrow> frame \<Rightarrow> frame" where
  "slice2 start df =
     df\<lparr>index := every_other (drop start (index df)),
        cells := every_other (drop start (cells df))\<rparr>"

text \<open>
  \<^verbatim>\<open>reset_index()\<close>: the row labels become a new first column, named
  \<^verbatim>\<open>index\<close>, or \<^verbatim>\<open>level_0\<close> when a column \<^verbatim>\<open>index\<close> exists; inserting a name that
  exists is refused. The rows are labelled from 0 again.
\<close>

definition reset_index :: "frame \<Rightarrow> error + frame" where
  "reset_index df =
     (let name = (if ''index'' \<notin> set (columns df) then ''index'' else ''level_0'')
      in if name \<in> set (columns df) then Inl InsertError
         else Inr \<lparr>index = [0..<length (cells df)],
                   columns = name # columns df,
                   cells = map2 (\<lambda>l r. Num (real l) # r) (index df) (cells df)\<rparr>)"

section \<open>\<^verbatim>\<open>load_flight_data\<close>\<close>

text \<open>Lines 90 to 95, given the labels found and the lines of the file.\<close>

definition build_tables ::
  "(string \<Rightarrow> fval option) \<Rightarrow> string list \<Rightarrow> string list \<Rightarrow> error + frame \<times> frame" where
  "build_tables float_of df_index lines =
     (case loadtxt float_of lines of
        Inl e \<Rightarrow> Inl e
      | Inr flight_data \<Rightarrow>
          (case DataFrame flight_data df_index of
             Inl e \<Rightarrow> Inl e
           | Inr df \<Rightarrow>
               (case reset_index (slice2 0 df) of
                  Inl e \<Rightarrow> Inl e
                | Inr initial_conditions \<Rightarrow>
                    (case reset_index (slice2 1 df) of
                       Inl e \<Rightarrow> Inl e
                     | Inr final_conditions \<Rightarrow>
                         Inr (initial_conditions, final_conditions)))))"

text \<open>
  The files are an explicit store from path to lines. Reading returns the
  store it was given. The function opens the file twice: once for the header
  scan, once inside \<^verbatim>\<open>np.loadtxt\<close>.
\<close>

type_synonym store = "string \<Rightarrow> string list option"

definition read_lines :: "store \<Rightarrow> string \<Rightarrow> store \<times> (error + string list)" where
  "read_lines fs path =
     (fs, case fs path of None \<Rightarrow> Inl FileNotFoundError | Some ls \<Rightarrow> Inr ls)"

definition load_flight_data ::
  "(string \<Rightarrow> fval option) \<Rightarrow> store \<Rightarrow> string \<Rightarrow> store \<times> (error + frame \<times> frame)" where
  "load_flight_data float_of fs output_filename =
     (let path = output_filename @ ''.txt'';
          (fs1, r1) = read_lines fs path
      in case r1 of
           Inl e \<Rightarrow> (fs1, Inl e)
         | Inr ls1 \<Rightarrow>
             (let df_index = header_scan ls1;
                  (fs2, r2) = read_lines fs1 path
              in case r2 of
                   Inl e \<Rightarrow> (fs2, Inl e)
                 | Inr ls2 \<Rightarrow> (fs2, build_tables float_of df_index ls2)))"

section \<open>\<^verbatim>\<open>vmi_cost_function\<close>\<close>

text \<open>
  \<^verbatim>\<open>df[name]\<close>: the column of that label, \<^verbatim>\<open>KeyError\<close> when no column has it;
  when several have it the selection is a table again (\<open>None\<close>).
\<close>

definition getitem :: "frame \<Rightarrow> string \<Rightarrow> error + fval list option" where
  "getitem df name =
     (case filter (\<lambda>j. columns df ! j = name) [0..<length (columns df)] of
        [] \<Rightarrow> Inl (KeyError name)
      | [j] \<Rightarrow> Inr (Some (map (\<lambda>r. r ! j) (cells df)))
      | _ \<Rightarrow> Inr None)"

text \<open>
  \<^verbatim>\<open>.unique()\<close>: the distinct values, in the order of their first occurrence;
  pandas keeps one NaN for all the NaN of the column.
\<close>

definition unique :: "fval list \<Rightarrow> fval list" where
  "unique xs = rev (remdups (rev xs))"

text \<open>
  \<^verbatim>\<open>df_res.loc[mask]\<close> with a boolean mask \<open>flags\<close> that carries the row labels
  \<open>mask_index\<close>: the mask is brought to the row labels of \<open>df\<close>; a label of
  \<open>df\<close> that the mask lacks is an \<^verbatim>\<open>IndexingError\<close>, labels that only the mask
  has are dropped. Row labels are unique in every table that
  \<^verbatim>\<open>load_flight_data\<close> returns.
\<close>

fun align_mask :: "(nat \<times> bool) list \<Rightarrow> nat list \<Rightarrow> error + bool list" where
  "align_mask m [] = Inr []"
| "align_mask m (l # ls) =
     (case map_of m l of
        None \<Rightarrow> Inl IndexingError
      | Some b \<Rightarrow> (case align_mask m ls of
                    Inl e \<Rightarrow> Inl e
                  | Inr bs \<Rightarrow> Inr (b # bs)))"

definition loc_mask :: "frame \<Rightarrow> nat list \<Rightarrow> bool list \<Rightarrow> error + frame" where
  "loc_mask df mask_index flags =
     (case (if mask_index = index df then Inr flags
            else align_mask (zip mask_index flags) (index df)) of
        Inl e \<Rightarrow> Inl e
      | Inr bs \<Rightarrow>
          Inr (df\<lparr>index := map fst (filter snd (zip (index df) bs)),
                  cells := map fst (filter snd (zip (cells df) bs))\<rparr>))"

text \<open>
  \<^verbatim>\<open>.max()\<close> and \<^verbatim>\<open>.min()\<close> of a column skip NaN; with nothing left (an empty
  column, or NaN only) the result is NaN.
\<close>

definition series_max :: "fval list \<Rightarrow> fval" where
  "series_max ys =
     (case filter (\<lambda>y. y \<noteq> NaN) ys of
        [] \<Rightarrow> NaN
      | y # ys' \<Rightarrow> fold (\<lambda>a m. if fle m a then a else m) ys' y)"

definition series_min :: "fval list \<Rightarrow> fval" where
  "series_min ys =
     (case filter (\<lambda>y. y \<noteq> NaN) ys of
        [] \<Rightarrow> NaN
      | y # ys' \<Rightarrow> fold (\<lambda>a m. if fle a m then a else m) ys' y)"

text \<open>\<^verbatim>\<open>y_pos = df_res.loc[df_ic['KE'] == energy]['Y']\<close>, line 115.\<close>

definition y_pos :: "frame \<Rightarrow> fval list \<Rightarrow> frame \<Rightarrow> fval \<Rightarrow> error + fval list" where
  "y_pos df_ic ke df_res energy =
     (case loc_mask df_res (index df_ic) (map (\<lambda>k. feq k energy) ke) of
        Inl e \<Rightarrow> Inl e
      | Inr sel \<Rightarrow>
          (case getitem sel ''Y'' of
             Inl e \<Rightarrow> Inl e
           | Inr None \<Rightarrow> Inl NonScalarResult
           | Inr (Some ys) \<Rightarrow> Inr ys))"

text \<open>\<^verbatim>\<open>(y_pos.max() - y_pos.min())**2\<close>, line 116.\<close>

definition spread_sq :: "fval list \<Rightarrow> fval" where
  "spread_sq ys = fsquare (fsub (series_max ys) (series_min ys))"

text \<open>The loop over the energies, lines 114 to 116, from the penalty so far.\<close>

fun energy_loop ::
  "frame \<Rightarrow> fval list \<Rightarrow> frame \<Rightarrow> fval list \<Rightarrow> fval \<Rightarrow> error + fval" where
  "energy_loop df_ic ke df_res [] penalty = Inr penalty"
| "energy_loop df_ic ke df_res (energy # rest) penalty =
     (case y_pos df_ic ke df_res energy of
        Inl e \<Rightarrow> Inl e
      | Inr ys \<Rightarrow> energy_loop df_ic ke df_res rest (fadd penalty (spread_sq ys)))"

text \<open>Lines 112 to 116: the grouping term.\<close>

definition grouping_penalty :: "frame \<Rightarrow> frame \<Rightarrow> error + fval" where
  "grouping_penalty df_ic df_res =
     (case getitem df_ic ''KE'' of
        Inl e \<Rightarrow> Inl e
      | Inr None \<Rightarrow> Inl AttributeError
      | Inr (Some ke) \<Rightarrow> energy_loop df_ic ke df_res (unique ke) (Num 0))"

text \<open>
  Lines 118 to 120: the loop over \<^verbatim>\<open>range(len(voltages) - 1)\<close>, from the penalty
  so far. The voltages are finite numbers.
\<close>

definition voltage_step :: "real list \<Rightarrow> nat \<Rightarrow> fval \<Rightarrow> fval" where
  "voltage_step voltages i penalty =
     (if voltages ! (i + 1) > voltages ! i then fadd penalty (Num 500) else penalty)"

definition voltage_loop :: "real list \<Rightarrow> fval \<Rightarrow> fval" where
  "voltage_loop voltages penalty =
     fold (voltage_step voltages) [0..<length voltages - 1] penalty"

text \<open>Lines 110 to 124, on the two tables loaded.\<close>

definition penalty_of :: "frame \<Rightarrow> frame \<Rightarrow> real list \<Rightarrow> error + fval" where
  "penalty_of df_ic df_res voltages =
     (case grouping_penalty df_ic df_res of
        Inl e \<Rightarrow> Inl e
      | Inr p \<Rightarrow> Inr (voltage_loop voltages p))"

text \<open>
  The whole function. The simulator is an external program: \<open>fs\<close> is the file
  store as the fast adjustment and the flight (lines 102 and 105) have left
  it. Line 102 reads \<^verbatim>\<open>voltages[0]\<close> and \<^verbatim>\<open>voltages[1]\<close> before anything else.
  The removal of the scratch files (line 107) touches no file that is read
  afterwards.
\<close>

definition vmi_cost_function ::
  "(string \<Rightarrow> fval option) \<Rightarrow> store \<Rightarrow> real list \<Rightarrow> string \<Rightarrow> error + fval" where
  "vmi_cost_function float_of fs voltages data_filename =
     (if length voltages < 2 then Inl IndexError
      else (case snd (load_flight_data float_of fs data_filename) of
              Inl e \<Rightarrow> Inl e
            | Inr (df_ic, df_res) \<Rightarrow> penalty_of df_ic df_res voltages))"

section \<open>A converter for decimal literals\<close>

text \<open>
  The examples below need a concrete \<open>float_of\<close>. \<open>float_dec\<close> reads the
  tokens \<^verbatim>\<open>nan\<close>, \<^verbatim>\<open>inf\<close> and \<^verbatim>\<open>-inf\<close>, and an optional minus sign, digits,
  and optionally a point and more digits, with the value that \<^verbatim>\<open>float\<close> gives
  such a token; it refuses a token without digits or with any other
  character, such as \<^verbatim>\<open>abc\<close>. The other notations of \<^verbatim>\<open>float\<close> (exponents,
  capitals, blanks around the number) do not occur in the examples. No
  general property depends on \<open>float_dec\<close>.
\<close>

definition digit_val :: "char \<Rightarrow> nat option" where
  "digit_val c = map_of (zip ''0123456789'' [0..<10]) c"

fun digits_val :: "nat \<Rightarrow> string \<Rightarrow> nat option" where
  "digits_val acc [] = Some acc"
| "digits_val acc (c # cs) =
     (case digit_val c of None \<Rightarrow> None | Some d \<Rightarrow> digits_val (10 * acc + d) cs)"

definition unsigned_dec :: "string \<Rightarrow> real option" where
  "unsigned_dec s =
     (let ip = takeWhile (\<lambda>c. c \<noteq> CHR ''.'') s;
          fp = drop 1 (dropWhile (\<lambda>c. c \<noteq> CHR ''.'') s)
      in if ip = [] \<and> fp = [] then None
         else (case digits_val 0 ip of
                 None \<Rightarrow> None
               | Some a \<Rightarrow> (case digits_val 0 fp of
                             None \<Rightarrow> None
                           | Some b \<Rightarrow> Some (real a + real b / 10 ^ length fp))))"

definition float_dec :: "string \<Rightarrow> fval option" where
  "float_dec s =
     (if s = ''nan'' then Some NaN
      else if s = ''inf'' then Some PosInf
      else if s = ''-inf'' then Some NegInf
      else (case s of
              [] \<Rightarrow> None
            | c # cs \<Rightarrow> map_option Num (if c = CHR ''-'' then map_option uminus (unsigned_dec cs)
                                       else unsigned_dec s)))"

section \<open>Vocabulary of the properties\<close>

text \<open>
  The number of columns that \<^verbatim>\<open>pd.DataFrame\<close> sees for the rows read: that
  of the first row, and one for an empty body (an empty one-dimensional array).
\<close>

definition frame_width :: "fval list list \<Rightarrow> nat" where
  "frame_width rows = (case rows of [] \<Rightarrow> 1 | r # _ \<Rightarrow> length r)"

text \<open>
  A well-formed artifact with body \<open>rows\<close>: every token of the body converts
  and every row has as many fields as the first; the header gives as many
  labels as the rows have fields; the labels leave a name free for the column
  that \<^verbatim>\<open>reset_index\<close> inserts.
\<close>

definition well_formed ::
  "(string \<Rightarrow> fval option) \<Rightarrow> string list \<Rightarrow> fval list list \<Rightarrow> bool" where
  "well_formed float_of lines rows \<longleftrightarrow>
     body_rows float_of lines = Inr rows \<and>
     length (header_scan lines) = frame_width rows \<and>
     \<not> (''index'' \<in> set (header_scan lines) \<and> ''level_0'' \<in> set (header_scan lines))"

text \<open>
  The final \<^verbatim>\<open>Y\<close> values of the ions whose initial energy equals \<open>e\<close>: \<open>ke\<close> is
  the column \<^verbatim>\<open>KE\<close> of the initial table, \<open>ys\<close> the column \<^verbatim>\<open>Y\<close> of the final
  table, paired by position.
\<close>

definition group_ys :: "fval list \<Rightarrow> fval list \<Rightarrow> fval \<Rightarrow> fval list" where
  "group_ys ke ys e = map snd (filter (\<lambda>p. feq (fst p) e) (zip ke ys))"

text \<open>The number of adjacent pairs of \<open>vs\<close> whose later entry is the greater.\<close>

definition rising_pairs :: "real list \<Rightarrow> nat" where
  "rising_pairs vs = length (filter (\<lambda>i. vs ! i < vs ! (i + 1)) [0..<length vs - 1])"

section \<open>Example artifacts\<close>

text \<open>A store that holds one file.\<close>

definition single_file :: "string \<Rightarrow> string list \<Rightarrow> store" where
  "single_file path ls = (\<lambda>p. if p = path then Some ls else None)"

definition quoted :: "string \<Rightarrow> string" where
  "quoted s = dq # s @ [dq]"

text \<open>Eleven lines before the header line, so that the rows start on line 13.\<close>

definition preamble :: "string list" where
  "preamble = replicate 11 [nl]"

text \<open>The header line \<^verbatim>\<open>"Ion N","KE","Y"\<close> with its line feed, and one with a fourth field.\<close>

definition header3 :: string where
  "header3 = quoted ''Ion N'' @ '','' @ quoted ''KE'' @ '','' @ quoted ''Y'' @ [nl]"

definition header4 :: string where
  "header4 =
     quoted ''Ion N'' @ '','' @ quoted ''KE'' @ '','' @ quoted ''Y'' @ '','' @ quoted ''X'' @ [nl]"

text \<open>The artifact of the header round trip: \<open>header3\<close> and four rows.\<close>

definition artifact_header3 :: "string list" where
  "artifact_header3 =
     preamble @
     [header3,
      ''1,0.5,0.0'' @ [nl], ''1,0.4,1.0'' @ [nl],
      ''2,0.5,0.0'' @ [nl], ''2,0.3,1.0'' @ [nl]]"

text \<open>
  Four ions, an initial and a final row each. The initial energies are 0.5,
  0.5, 1.5, 1.5; the final \<^verbatim>\<open>Y\<close> values are 1, 1, 2, 4.
\<close>

definition artifact8 :: "string list" where
  "artifact8 =
     preamble @
     [header4,
      ''1,0.5,0.0,0.0'' @ [nl], ''1,0.1,1.0,9.0'' @ [nl],
      ''2,0.5,0.0,0.0'' @ [nl], ''2,0.1,1.0,9.0'' @ [nl],
      ''3,1.5,0.0,0.0'' @ [nl], ''3,0.2,2.0,9.0'' @ [nl],
      ''4,1.5,0.0,0.0'' @ [nl], ''4,0.2,4.0,9.0'' @ [nl]]"

definition rows8 :: "fval list list" where
  "rows8 =
     map (map Num)
       [[1, 1/2, 0, 0], [1, 1/10, 1, 9],
        [2, 1/2, 0, 0], [2, 1/10, 1, 9],
        [3, 3/2, 0, 0], [3, 1/5, 2, 9],
        [4, 3/2, 0, 0], [4, 1/5, 4, 9]]"

text \<open>
  The same eight rows without the fourth field, under the header line
  \<^verbatim>\<open>"Ion N","KE","Y"\<close>: the last field of the header is \<^verbatim>\<open>Y\<close>.
\<close>

definition artifact_y_last :: "string list" where
  "artifact_y_last =
     preamble @
     [header3,
      ''1,0.5,0.0'' @ [nl], ''1,0.1,1.0'' @ [nl],
      ''2,0.5,0.0'' @ [nl], ''2,0.1,1.0'' @ [nl],
      ''3,1.5,0.0'' @ [nl], ''3,0.2,2.0'' @ [nl],
      ''4,1.5,0.0'' @ [nl], ''4,0.2,4.0'' @ [nl]]"

text \<open>The same with the last final \<^verbatim>\<open>Y\<close> equal to 2: no spread in either group.\<close>

definition artifact_focused :: "string list" where
  "artifact_focused =
     preamble @
     [header4,
      ''1,0.5,0.0,0.0'' @ [nl], ''1,0.1,1.0,9.0'' @ [nl],
      ''2,0.5,0.0,0.0'' @ [nl], ''2,0.1,1.0,9.0'' @ [nl],
      ''3,1.5,0.0,0.0'' @ [nl], ''3,0.2,2.0,9.0'' @ [nl],
      ''4,1.5,0.0,0.0'' @ [nl], ''4,0.2,2.0,9.0'' @ [nl]]"

text \<open>Three body rows: an odd number.\<close>

definition artifact_odd :: "string list" where
  "artifact_odd =
     preamble @
     [header4,
      ''1,0.5,0.0,0.0'' @ [nl], ''1,0.1,1.0,9.0'' @ [nl],
      ''2,0.5,0.0,0.0'' @ [nl]]"

definition rows_odd :: "fval list list" where
  "rows_odd = map (map Num) [[1, 1/2, 0, 0], [1, 1/10, 1, 9], [2, 1/2, 0, 0]]"

text \<open>
  Three body rows again; the second ion has an initial energy of its own,
  1.5, and no final row.
\<close>

definition artifact_lone :: "string list" where
  "artifact_lone =
     preamble @
     [header4,
      ''1,0.5,0.0,0.0'' @ [nl], ''1,0.1,1.0,9.0'' @ [nl],
      ''2,1.5,0.0,0.0'' @ [nl]]"

text \<open>Two ions of one energy whose final \<^verbatim>\<open>Y\<close> are both infinite.\<close>

definition artifact_inf :: "string list" where
  "artifact_inf =
     preamble @
     [header4,
      ''1,0.5,0.0,0.0'' @ [nl], ''1,0.1,inf,9.0'' @ [nl],
      ''2,0.5,0.0,0.0'' @ [nl], ''2,0.1,inf,9.0'' @ [nl]]"

text \<open>Two ions with the same final \<^verbatim>\<open>Y\<close>; the initial energy of the first is NaN.\<close>

definition artifact_nan :: "string list" where
  "artifact_nan =
     preamble @
     [header4,
      ''1,nan,0.0,0.0'' @ [nl], ''1,0.1,1.0,9.0'' @ [nl],
      ''2,0.5,0.0,0.0'' @ [nl], ''2,0.1,1.0,9.0'' @ [nl]]"

text \<open>
  No line holds the marker, and the second field of the first row is no
  number; and the same body under a header line.
\<close>

definition artifact_unmarked_bad :: "string list" where
  "artifact_unmarked_bad =
     replicate 12 [nl] @ [''1,abc,0.0,0.0'' @ [nl], ''1,0.1,1.0,9.0'' @ [nl]]"

definition artifact_marked_bad :: "string list" where
  "artifact_marked_bad =
     preamble @ [header4, ''1,abc,0.0,0.0'' @ [nl], ''1,0.1,1.0,9.0'' @ [nl]]"

text \<open>No line holds the marker, the body is sound.\<close>

definition artifact_unmarked :: "string list" where
  "artifact_unmarked =
     replicate 12 [nl] @ [''1,0.5,0.0,0.0'' @ [nl], ''1,0.1,1.0,9.0'' @ [nl]]"

text \<open>
  The token \<^verbatim>\<open>abc\<close> on line 14 of the file (the second row), and on line 15
  after an empty line is put before that row.
\<close>

definition artifact_bad14 :: "string list" where
  "artifact_bad14 =
     preamble @ [header4, ''1,0.5,0.0,0.0'' @ [nl], ''1,abc,1.0,9.0'' @ [nl]]"

definition artifact_bad15 :: "string list" where
  "artifact_bad15 =
     preamble @ [header4, ''1,0.5,0.0,0.0'' @ [nl], [nl], ''1,abc,1.0,9.0'' @ [nl]]"

text \<open>The tables that \<^verbatim>\<open>load_flight_data\<close> returns for \<open>artifact_focused\<close>.\<close>

definition columns8 :: "string list" where
  "columns8 = [''index'', ''Ion N'', ''KE'', ''Y'', ''X'' @ [dq]]"

definition ic8 :: frame where
  "ic8 = \<lparr>index = [0, 1, 2, 3], columns = columns8,
          cells = map (map Num)
            [[0, 1, 1/2, 0, 0], [2, 2, 1/2, 0, 0], [4, 3, 3/2, 0, 0], [6, 4, 3/2, 0, 0]]\<rparr>"

definition res_focused :: frame where
  "res_focused = \<lparr>index = [0, 1, 2, 3], columns = columns8,
           cells = map (map Num)
             [[1, 1, 1/10, 1, 9], [3, 2, 1/10, 1, 9], [5, 3, 1/5, 2, 9], [7, 4, 1/5, 2, 9]]\<rparr>"

section \<open>Auxiliary lemmas\<close>

lemma strip_step_nth:
  "i < length xs \<Longrightarrow> strip_step i xs = xs[i := butlast (tl (xs ! i))]"
  by (simp add: strip_step_def Let_def)

lemma fold_strip_step:
  "k \<le> length xs \<Longrightarrow>
   fold strip_step [0..<k] xs = map (\<lambda>s. butlast (tl s)) (take k xs) @ drop k xs"
proof (induction k)
  case 0
  then show ?case by simp
next
  case (Suc k)
  then have k: "k < length xs" by simp
  let ?g = "\<lambda>s. butlast (tl s)"
  let ?ys = "map ?g (take k xs) @ drop k xs"
  have len: "length ?ys = length xs" using k by simp
  have nth: "?ys ! k = xs ! k" using k by (simp add: nth_append)
  have "fold strip_step [0..<Suc k] xs = strip_step k ?ys"
    using Suc k by simp
  also have "\<dots> = ?ys[k := ?g (xs ! k)]"
    using strip_step_nth[of k ?ys] len k nth by simp
  also have "\<dots> = map ?g (take (Suc k) xs) @ drop (Suc k) xs"
    using k by (simp add: list_update_append take_Suc_conv_app_nth Cons_nth_drop_Suc[symmetric])
  finally show ?case .
qed

lemma strip_index_map: "strip_index xs = map (\<lambda>s. butlast (tl s)) xs"
  by (simp add: strip_index_def fold_strip_step)

lemma load_flight_data_unfold:
  "load_flight_data f fs name =
     (fs, case fs (name @ ''.txt'') of
            None \<Rightarrow> Inl FileNotFoundError
          | Some ls \<Rightarrow> build_tables f (header_scan ls) ls)"
  by (simp add: load_flight_data_def read_lines_def Let_def split: option.splits)

lemma length_every_other: "length (every_other xs) = (length xs + 1) div 2"
  by (induction xs rule: every_other.induct) simp_all

lemma nth_every_other:
  "2 * i < length xs \<Longrightarrow> every_other xs ! i = xs ! (2 * i)"
proof (induction xs arbitrary: i rule: every_other.induct)
  case (3 x y zs)
  then show ?case by (cases i) simp_all
qed simp_all

lemma nth_every_other_drop:
  "2 * i + 1 < length xs \<Longrightarrow> every_other (drop 1 xs) ! i = xs ! (2 * i + 1)"
  using nth_every_other[of i "drop 1 xs"] by (simp add: add.commute)

lemma convert_row_length:
  "convert_row f ts = Some vs \<Longrightarrow> length vs = length ts"
  by (induction ts arbitrary: vs) (auto split: option.splits)

lemma read_rows_Inr:
  "read_rows f N toks = Inr rows \<Longrightarrow>
   length rows = length toks \<and> (\<forall>r \<in> set rows. length r = N)"
proof (induction toks arbitrary: rows)
  case Nil
  then show ?case by simp
next
  case (Cons t toks)
  then show ?case
    by (auto split: if_splits option.splits sum.splits dest: convert_row_length)
qed

lemma body_tokens_nonempty: "r \<in> set (body_tokens lines) \<Longrightarrow> r \<noteq> []"
  by (simp add: body_tokens_def)

lemma body_rows_rect:
  assumes "body_rows f lines = Inr rows"
  shows "\<exists>N. 0 < N \<and> (\<forall>r \<in> set rows. length r = N)" "length rows = length (body_tokens lines)"
proof -
  let ?toks = "body_tokens lines"
  let ?N = "case ?toks of [] \<Rightarrow> 0 | r # _ \<Rightarrow> length r"
  have rr: "read_rows f ?N ?toks = Inr rows"
    using assms by (simp add: body_rows_def Let_def)
  from read_rows_Inr[OF rr] have len: "length rows = length ?toks"
    and all: "\<forall>r \<in> set rows. length r = ?N" by auto
  show "length rows = length ?toks" by (rule len)
  show "\<exists>N. 0 < N \<and> (\<forall>r \<in> set rows. length r = N)"
  proof (cases ?toks)
    case Nil
    with len have "rows = []" by simp
    then show ?thesis by (intro exI[of _ 1]) simp
  next
    case (Cons t ts)
    then have "t \<noteq> []" using body_tokens_nonempty[of t lines] by simp
    with Cons all show ?thesis by (intro exI[of _ "length t"]) simp
  qed
qed

lemma DataFrame_squeeze:
  assumes rect: "\<forall>r \<in> set rows. length r = N" and len: "length rows \<noteq> 1"
  shows "DataFrame (squeeze rows) labels = frame_of_rows rows (frame_width rows) labels"
proof (cases rows)
  case Nil
  then show ?thesis by (simp add: squeeze_def DataFrame_def frame_width_def)
next
  case (Cons r1 rest)
  with len obtain r2 rest' where rest: "rest = r2 # rest'" by (cases rest) auto
  show ?thesis
  proof (cases "length r1 = 1")
    case True
    with rect Cons have "\<forall>r \<in> set rows. length r = 1" by auto
    then have "map (\<lambda>x. [x]) (map hd rows) = rows"
      by (induction rows) (auto simp: length_Suc_conv)
    with True Cons rest show ?thesis
      by (simp add: squeeze_def DataFrame_def frame_width_def)
  next
    case False
    with Cons rest show ?thesis
      by (simp add: squeeze_def DataFrame_def frame_width_def)
  qed
qed

lemma DataFrame_index:
  "DataFrame arr labels = Inr df \<Longrightarrow> index df = [0..<length (cells df)]"
  by (auto simp: DataFrame_def frame_of_rows_def split: ndarray.splits if_splits)

lemma reset_index_slice2:
  assumes "index df = [0..<length (cells df)]" and "reset_index (slice2 s df) = Inr t"
  shows "index t = [0..<length (cells t)]"
    and "cells t = map2 (\<lambda>l r. Num (real l) # r) (every_other (drop s [0..<length (cells df)]))
                        (every_other (drop s (cells df)))"
    and "length (cells t) = length (every_other (drop s (cells df)))"
    and "columns t = (if ''index'' \<notin> set (columns df) then ''index'' else ''level_0'') # columns df"
proof -
  have le: "length (every_other (drop s [0..<length (cells df)])) =
            length (every_other (drop s (cells df)))"
    by (simp add: length_every_other)
  from assms(2) have t: "t = \<lparr>index = [0..<length (every_other (drop s (cells df)))],
      columns = (if ''index'' \<notin> set (columns df) then ''index'' else ''level_0'') # columns df,
      cells = map2 (\<lambda>l r. Num (real l) # r) (every_other (drop s (index df)))
                (every_other (drop s (cells df)))\<rparr>"
    by (auto simp: reset_index_def slice2_def Let_def split: if_splits)
  show "cells t = map2 (\<lambda>l r. Num (real l) # r) (every_other (drop s [0..<length (cells df)]))
                        (every_other (drop s (cells df)))"
    using t assms(1) by simp
  show "length (cells t) = length (every_other (drop s (cells df)))"
    using t assms(1) le by simp
  then show "index t = [0..<length (cells t)]" using t by simp
  show "columns t = (if ''index'' \<notin> set (columns df) then ''index'' else ''level_0'') # columns df"
    using t by simp
qed

lemma build_tables_Inr:
  assumes "build_tables f labels lines = Inr (ic, res)"
  obtains df where "index df = [0..<length (cells df)]"
    and "reset_index (slice2 0 df) = Inr ic" and "reset_index (slice2 1 df) = Inr res"
proof -
  from assms obtain arr df where "DataFrame arr labels = Inr df"
    and "reset_index (slice2 0 df) = Inr ic" and "reset_index (slice2 1 df) = Inr res"
    by (auto simp: build_tables_def split: sum.splits)
  with DataFrame_index that show thesis by blast
qed

lemma load_Inr_build:
  assumes "snd (load_flight_data f fs name) = Inr (ic, res)"
  obtains lines where "fs (name @ ''.txt'') = Some lines"
    and "build_tables f (header_scan lines) lines = Inr (ic, res)"
  using assms by (auto simp: load_flight_data_unfold split: option.splits)

lemma load_shape:
  assumes "snd (load_flight_data f fs name) = Inr (ic, res)"
  shows "index ic = [0..<length (cells ic)]"
    and "index res = [0..<length (cells res)]"
    and "length (cells res) \<le> length (cells ic)"
    and "columns res = columns ic"
proof -
  from assms obtain lines where "build_tables f (header_scan lines) lines = Inr (ic, res)"
    by (rule load_Inr_build)
  then obtain df where df: "index df = [0..<length (cells df)]"
    and ic: "reset_index (slice2 0 df) = Inr ic" and res: "reset_index (slice2 1 df) = Inr res"
    by (rule build_tables_Inr)
  show "index ic = [0..<length (cells ic)]" by (rule reset_index_slice2(1)[OF df ic])
  show "index res = [0..<length (cells res)]" by (rule reset_index_slice2(1)[OF df res])
  show "length (cells res) \<le> length (cells ic)"
    using reset_index_slice2(3)[OF df ic] reset_index_slice2(3)[OF df res]
    by (simp add: length_every_other)
  show "columns res = columns ic"
    using reset_index_slice2(4)[OF df ic] reset_index_slice2(4)[OF df res] by simp
qed

lemma load_well_formed:
  assumes src: "fs (name @ ''.txt'') = Some lines"
    and wf: "well_formed f lines rows" and len: "length rows \<noteq> 1"
  shows "\<exists>ic res. snd (load_flight_data f fs name) = Inr (ic, res) \<and>
     cells ic = map2 (\<lambda>l r. Num (real l) # r) (every_other [0..<length rows]) (every_other rows) \<and>
     cells res = map2 (\<lambda>l r. Num (real l) # r) (every_other (drop 1 [0..<length rows]))
                   (every_other (drop 1 rows)) \<and>
     index ic = [0..<length (cells ic)] \<and> index res = [0..<length (cells res)] \<and>
     columns ic = (if ''index'' \<notin> set (header_scan lines) then ''index'' else ''level_0'')
                    # header_scan lines \<and>
     columns res = columns ic"
proof -
  let ?labels = "header_scan lines"
  from wf have body: "body_rows f lines = Inr rows"
    and width: "length ?labels = frame_width rows"
    and free: "\<not> (''index'' \<in> set ?labels \<and> ''level_0'' \<in> set ?labels)"
    by (simp_all add: well_formed_def)
  from body_rows_rect(1)[OF body] obtain N where rect: "\<forall>r \<in> set rows. length r = N"
    by blast
  let ?df = "\<lparr>index = [0..<length rows], columns = ?labels, cells = rows\<rparr>"
  have df: "DataFrame (squeeze rows) ?labels = Inr ?df"
    using DataFrame_squeeze[OF rect len, of ?labels] width by (simp add: frame_of_rows_def)
  have idx: "index ?df = [0..<length (cells ?df)]" by simp
  have ok: "\<exists>t. reset_index (slice2 s ?df) = Inr t" for s
    using free by (simp add: reset_index_def slice2_def Let_def)
  from ok[of 0] obtain ic where ic: "reset_index (slice2 0 ?df) = Inr ic" by blast
  from ok[of 1] obtain res where res: "reset_index (slice2 1 ?df) = Inr res" by blast
  have "build_tables f ?labels lines = Inr (ic, res)"
    using body df ic res by (simp add: build_tables_def loadtxt_def)
  then have "snd (load_flight_data f fs name) = Inr (ic, res)"
    using src by (simp add: load_flight_data_unfold)
  moreover note reset_index_slice2[OF idx ic] reset_index_slice2[OF idx res]
  ultimately show ?thesis by simp
qed

lemma load_well_formed_rows:
  assumes src: "fs (name @ ''.txt'') = Some lines"
    and wf: "well_formed f lines rows" and len: "length rows \<noteq> 1"
  shows "\<exists>ic res. snd (load_flight_data f fs name) = Inr (ic, res) \<and>
     length (cells ic) = (length rows + 1) div 2 \<and>
     length (cells res) = length rows div 2 \<and>
     (\<forall>i. 2 * i < length rows \<longrightarrow> cells ic ! i = Num (real (2 * i)) # rows ! (2 * i)) \<and>
     (\<forall>i. 2 * i + 1 < length rows \<longrightarrow> cells res ! i = Num (real (2 * i + 1)) # rows ! (2 * i + 1)) \<and>
     index ic = [0..<(length rows + 1) div 2] \<and> index res = [0..<length rows div 2] \<and>
     columns ic = (if ''index'' \<notin> set (header_scan lines) then ''index'' else ''level_0'')
                    # header_scan lines \<and>
     columns res = columns ic"
proof -
  let ?N = "length rows"
  from load_well_formed[of fs name lines f rows] src wf len obtain ic res where
    ld: "snd (load_flight_data f fs name) = Inr (ic, res)"
    and ci: "cells ic = map2 (\<lambda>l r. Num (real l) # r) (every_other [0..<?N]) (every_other rows)"
    and cr: "cells res = map2 (\<lambda>l r. Num (real l) # r) (every_other (drop 1 [0..<?N]))
                   (every_other (drop 1 rows))"
    and ii: "index ic = [0..<length (cells ic)]" and ir: "index res = [0..<length (cells res)]"
    and cols: "columns ic = (if ''index'' \<notin> set (header_scan lines) then ''index'' else ''level_0'')
                    # header_scan lines" "columns res = columns ic"
    by blast
  have li: "length (cells ic) = (?N + 1) div 2"
    by (simp add: ci length_every_other)
  have lr: "length (cells res) = ?N div 2"
    by (simp add: cr length_every_other)
  have ni: "cells ic ! i = Num (real (2 * i)) # rows ! (2 * i)" if "2 * i < ?N" for i
  proof -
    from that have "i < (?N + 1) div 2" by arith
    then have "cells ic ! i = Num (real (every_other [0..<?N] ! i)) # every_other rows ! i"
      by (simp add: ci length_every_other)
    then show ?thesis using that nth_every_other[of i rows] nth_every_other[of i "[0..<?N]"]
      by simp
  qed
  have nr: "cells res ! i = Num (real (2 * i + 1)) # rows ! (2 * i + 1)" if "2 * i + 1 < ?N" for i
  proof -
    from that have "i < ?N div 2" by arith
    then have "cells res ! i =
        Num (real (every_other (drop 1 [0..<?N]) ! i)) # every_other (drop 1 rows) ! i"
      by (simp add: cr length_every_other)
    then show ?thesis
      using that nth_every_other_drop[of i rows] nth_every_other_drop[of i "[0..<?N]"]
      by simp
  qed
  show ?thesis
    using ld li lr ni nr ii ir cols by auto
qed

lemma fadd_zero: "fadd p (Num 0) = p"
  by (cases p) simp_all

lemma fadd_assoc_num: "fadd (fadd p (Num x)) (Num y) = fadd p (Num (x + y))"
  by (cases p) simp_all

lemma fold_voltage_step:
  "fold (voltage_step vs) [0..<k] p =
   fadd p (Num (500 * real (length (filter (\<lambda>i. vs ! i < vs ! (i + 1)) [0..<k]))))"
proof (induction k)
  case 0
  show ?case by (simp add: fadd_zero)
next
  case (Suc k)
  let ?c = "length (filter (\<lambda>i. vs ! i < vs ! (i + 1)) [0..<k])"
  have "fold (voltage_step vs) [0..<Suc k] p =
        voltage_step vs k (fadd p (Num (500 * real ?c)))"
    by (simp add: Suc)
  also have "\<dots> = fadd p
      (Num (500 * real (length (filter (\<lambda>i. vs ! i < vs ! (i + 1)) [0..<Suc k]))))"
    by (simp add: voltage_step_def fadd_assoc_num algebra_simps)
  finally show ?case .
qed

lemma voltage_loop_count:
  "voltage_loop vs p = fadd p (Num (500 * real (rising_pairs vs)))"
  by (simp add: voltage_loop_def rising_pairs_def fold_voltage_step)

lemma align_mask_upt:
  assumes "length flags = m" and "\<forall>l \<in> set ls. l < m"
  shows "align_mask (zip [0..<m] flags) ls = Inr (map ((!) flags) ls)"
  using assms(2)
proof (induction ls)
  case Nil
  show ?case by simp
next
  case (Cons l ls)
  then have "l < m" by simp
  then have "map_of (zip [0..<m] flags) l = Some (flags ! l)"
    using map_of_zip_nth[of "[0..<m]" flags l] assms(1) by simp
  with Cons show ?case by simp
qed

lemma loc_mask_dense:
  assumes "index res = [0..<n]" and "length flags = m" and "n \<le> m"
  shows "loc_mask res [0..<m] flags =
     Inr (res\<lparr>index := map fst (filter snd (zip [0..<n] (take n flags))),
             cells := map fst (filter snd (zip (cells res) (take n flags)))\<rparr>)"
proof (cases "m = n")
  case True
  with assms show ?thesis by (simp add: loc_mask_def)
next
  case False
  have "[0..<m] \<noteq> [0..<n]"
  proof
    assume "[0..<m] = [0..<n]"
    then have "length [0..<m] = length [0..<n]" by (rule arg_cong)
    with False show False by simp
  qed
  moreover have "align_mask (zip [0..<m] flags) [0..<n] = Inr (map ((!) flags) [0..<n])"
    using assms by (intro align_mask_upt) auto
  moreover have "map ((!) flags) [0..<n] = take n flags"
    using assms by (intro nth_equalityI) simp_all
  ultimately show ?thesis using assms by (simp add: loc_mask_def)
qed

lemma getitem_Some:
  "getitem df name = Inr (Some xs) \<Longrightarrow>
   \<exists>j. filter (\<lambda>j. columns df ! j = name) [0..<length (columns df)] = [j] \<and>
       xs = map (\<lambda>r. r ! j) (cells df)"
  by (auto simp: getitem_def split: list.splits)

lemma select_group:
  "map g (map fst (filter snd (zip cs (take (length cs) (map (\<lambda>k. feq k e) ke))))) =
   group_ys ke (map g cs) e"
proof (induction cs arbitrary: ke)
  case Nil
  show ?case by (simp add: group_ys_def)
next
  case (Cons c cs)
  show ?case
  proof (cases ke)
    case Nil
    then show ?thesis by (simp add: group_ys_def)
  next
    case (Cons k ke')
    with Cons.IH[of ke'] show ?thesis by (simp add: group_ys_def)
  qed
qed

lemma y_pos_dense:
  assumes "index df_ic = [0..<m]" and "index df_res = [0..<n]"
    and "length (cells df_res) = n" and "length ke = m" and "n \<le> m"
    and "getitem df_res ''Y'' = Inr (Some ys)"
  shows "y_pos df_ic ke df_res e = Inr (group_ys ke ys e)"
proof -
  from getitem_Some[OF assms(6)] obtain j where
    j: "filter (\<lambda>j. columns df_res ! j = ''Y'') [0..<length (columns df_res)] = [j]"
    and ys: "ys = map (\<lambda>r. r ! j) (cells df_res)" by blast
  let ?flags = "map (\<lambda>k. feq k e) ke"
  let ?cs = "map fst (filter snd (zip (cells df_res) (take n ?flags)))"
  let ?sel = "df_res\<lparr>index := map fst (filter snd (zip [0..<n] (take n ?flags))),
                     cells := ?cs\<rparr>"
  have loc: "loc_mask df_res (index df_ic) ?flags = Inr ?sel"
    using loc_mask_dense[of df_res n ?flags m] assms by simp
  have "getitem ?sel ''Y'' = Inr (Some (map (\<lambda>r. r ! j) ?cs))"
    using j by (simp add: getitem_def)
  moreover have "map (\<lambda>r. r ! j) ?cs = group_ys ke ys e"
    using select_group[of "\<lambda>r. r ! j" "cells df_res" e ke] assms(3) ys by simp
  ultimately show ?thesis using loc by (simp add: y_pos_def)
qed

lemma energy_loop_fold:
  assumes "\<forall>e \<in> set es. y_pos df_ic ke df_res e = Inr (grp e)"
  shows "energy_loop df_ic ke df_res es p =
         Inr (fold (\<lambda>e q. fadd q (spread_sq (grp e))) es p)"
  using assms by (induction es arbitrary: p) simp_all

lemma fold_keeps_constant:
  assumes "\<forall>y \<in> set ys. y = Num v"
  shows "fold (\<lambda>a m. if fle m a then a else m) ys (Num v) = Num v"
    and "fold (\<lambda>a m. if fle a m then a else m) ys (Num v) = Num v"
  using assms by (induction ys) simp_all

lemma spread_sq_constant:
  assumes "ys \<noteq> []" and "\<forall>y \<in> set ys. y = Num v"
  shows "spread_sq ys = Num 0"
proof -
  from assms obtain ys' where ys: "ys = Num v # ys'" by (cases ys) auto
  with assms(2) have rest: "\<forall>y \<in> set ys'. y = Num v" by simp
  then have keep: "filter (\<lambda>y. y \<noteq> NaN) ys' = ys'" by (auto simp: filter_id_conv)
  show ?thesis
    by (simp add: spread_sq_def series_max_def series_min_def ys keep
          fold_keeps_constant[OF rest])
qed

lemma fold_fadd_zero:
  assumes "\<forall>e \<in> set es. spread_sq (grp e) = Num 0"
  shows "fold (\<lambda>e q. fadd q (spread_sq (grp e))) es p = p"
  using assms by (induction es arbitrary: p) (simp_all add: fadd_zero)

lemma set_unique: "set (unique xs) = set xs"
  by (simp add: unique_def)

lemma in_group_ys:
  "y \<in> set (group_ys ke ys e) \<longleftrightarrow>
   (\<exists>i. i < length ke \<and> i < length ys \<and> feq (ke ! i) e \<and> y = ys ! i)"
proof
  assume "y \<in> set (group_ys ke ys e)"
  then obtain k where "(k, y) \<in> set (zip ke ys)" and "feq k e"
    by (auto simp: group_ys_def)
  then show "\<exists>i. i < length ke \<and> i < length ys \<and> feq (ke ! i) e \<and> y = ys ! i"
    unfolding in_set_zip by auto
next
  assume "\<exists>i. i < length ke \<and> i < length ys \<and> feq (ke ! i) e \<and> y = ys ! i"
  then obtain i where i: "i < length ke" "i < length ys" "feq (ke ! i) e" "y = ys ! i"
    by blast
  then have "(ke ! i, y) \<in> set (zip ke ys)" unfolding in_set_zip by auto
  with i(3) have "(ke ! i, y) \<in> set (filter (\<lambda>p. feq (fst p) e) (zip ke ys))" by simp
  then have "snd (ke ! i, y) \<in> set (group_ys ke ys e)"
    unfolding group_ys_def set_map by (rule imageI)
  then show "y \<in> set (group_ys ke ys e)" by simp
qed


lemma header_scan_find:
  "header_scan lines =
     (case find (contains marker) lines of
        None \<Rightarrow> []
      | Some l \<Rightarrow> strip_index (split_on (CHR '','') l))"
  by (induction lines) simp_all

lemma DataFrame_no_labels:
  assumes "\<forall>r \<in> set rows. length r = N" and "0 < N"
  shows "DataFrame (squeeze rows) [] = Inl FrameShapeError \<or>
         DataFrame (squeeze rows) [] = Inl FrameDimError"
proof (cases rows)
  case Nil
  then show ?thesis by (simp add: squeeze_def DataFrame_def frame_of_rows_def)
next
  case (Cons r rest)
  with assms have r: "length r = N" by simp
  show ?thesis
  proof (cases rest)
    case Nil
    with Cons show ?thesis
      by (auto simp: squeeze_def DataFrame_def frame_of_rows_def split: list.splits)
  next
    case (Cons r2 rest')
    with \<open>rows = r # rest\<close> r assms(2) show ?thesis
      by (auto simp: squeeze_def DataFrame_def frame_of_rows_def)
  qed
qed

lemma convert_row_None:
  "convert_row f r = None \<longleftrightarrow> (\<exists>t \<in> set r. f t = None)"
  by (induction r) (auto split: option.splits)

lemma read_rows_bad_token:
  assumes "\<exists>r \<in> set toks. \<exists>t \<in> set r. f t = None"
  shows "read_rows f N toks = Inl ConversionError \<or> read_rows f N toks = Inl ColumnCountError"
  using assms
proof (induction toks)
  case Nil
  then show ?case by simp
next
  case (Cons r toks)
  show ?case
  proof (cases "length r \<noteq> N")
    case True
    then show ?thesis by simp
  next
    case width: False
    show ?thesis
    proof (cases "convert_row f r")
      case None
      with width show ?thesis by simp
    next
      case (Some vs)
      then have "\<not> (\<exists>t \<in> set r. f t = None)" by (simp flip: convert_row_None)
      with Cons.prems have "\<exists>r \<in> set toks. \<exists>t \<in> set r. f t = None" by auto
      from Cons.IH[OF this] Some width show ?thesis by auto
    qed
  qed
qed

lemma read_rows_bad_token_rect:
  assumes "\<exists>r \<in> set toks. \<exists>t \<in> set r. f t = None" and "\<forall>r \<in> set toks. length r = N"
  shows "read_rows f N toks = Inl ConversionError"
  using assms
proof (induction toks)
  case Nil
  then show ?case by simp
next
  case (Cons r toks)
  then have width: "length r = N" by simp
  show ?case
  proof (cases "convert_row f r")
    case None
    with width show ?thesis by simp
  next
    case (Some vs)
    then have "\<not> (\<exists>t \<in> set r. f t = None)" by (simp flip: convert_row_None)
    with Cons.prems have "\<exists>r \<in> set toks. \<exists>t \<in> set r. f t = None" by auto
    moreover from Cons.prems have "\<forall>r \<in> set toks. length r = N" by simp
    ultimately have "read_rows f N toks = Inl ConversionError" by (rule Cons.IH)
    with Some width show ?thesis by simp
  qed
qed

lemma load_body_error:
  assumes "fs (name @ ''.txt'') = Some lines" and "body_rows f lines = Inl e"
  shows "snd (load_flight_data f fs name) = Inl e"
  using assms by (simp add: load_flight_data_unfold build_tables_def loadtxt_def)

section \<open>Properties of the loader and of the cost function\<close>

text \<open>
  C1. For the header line \<^verbatim>\<open>"Ion N","KE","Y"\<close> with its line feed and a body of
  four rows, the claim expects the labels \<^verbatim>\<open>Ion N\<close>, \<^verbatim>\<open>KE\<close>, \<^verbatim>\<open>Y\<close>. Evaluated on
  that artifact, the code leaves the closing quote on the last label: the slice
  \<^verbatim>\<open>idx[1:-1]\<close> is taken from the field that still ends with the line feed.
\<close>

theorem header3_keeps_closing_quote:
  "header_scan artifact_header3 = [''Ion N'', ''KE'', ''Y'' @ [dq]] \<and>
   map_sum id (\<lambda>(ic, res). (columns ic, columns res))
     (snd (load_flight_data float_dec (single_file ''data.txt'' artifact_header3) ''data'')) =
   Inr ([''index'', ''Ion N'', ''KE'', ''Y'' @ [dq]], [''index'', ''Ion N'', ''KE'', ''Y'' @ [dq]])"
  by code_simp

text \<open>
  C2, as the code has it. The code has no check of the number of rows. For a
  well-formed artifact with \<open>2n + 1\<close> body rows, \<open>n > 0\<close>, \<^verbatim>\<open>load_flight_data\<close>
  returns: the initial table has the \<open>n + 1\<close> body rows at even positions, the
  final table the \<open>n\<close> body rows at odd positions.
\<close>

theorem load_odd_rows_unequal:
  assumes "fs (output_filename @ ''.txt'') = Some lines"
    and "well_formed float_of lines rows"
    and "length rows = 2 * n + 1"
    and "0 < n"
  shows "\<exists>ic res. snd (load_flight_data float_of fs output_filename) = Inr (ic, res) \<and>
     length (cells ic) = n + 1 \<and> length (cells res) = n \<and>
     (\<forall>i\<le>n. tl (cells ic ! i) = rows ! (2 * i)) \<and>
     (\<forall>i<n. tl (cells res ! i) = rows ! (2 * i + 1))"
proof -
  from assms(3,4) have "length rows \<noteq> 1" by arith
  with load_well_formed_rows[of fs output_filename lines float_of rows] assms(1,2)
  obtain ic res where
    ld: "snd (load_flight_data float_of fs output_filename) = Inr (ic, res)"
    and li: "length (cells ic) = (length rows + 1) div 2"
    and lr: "length (cells res) = length rows div 2"
    and ni: "\<forall>i. 2 * i < length rows \<longrightarrow> cells ic ! i = Num (real (2 * i)) # rows ! (2 * i)"
    and nr: "\<forall>i. 2 * i + 1 < length rows \<longrightarrow>
                 cells res ! i = Num (real (2 * i + 1)) # rows ! (2 * i + 1)"
    by blast
  have "tl (cells ic ! i) = rows ! (2 * i)" if "i \<le> n" for i
    using that ni assms(3) by simp
  moreover have "tl (cells res ! i) = rows ! (2 * i + 1)" if "i < n" for i
    using that nr assms(3) by simp
  moreover have "length (cells ic) = n + 1" "length (cells res) = n"
    using li lr assms(3) by simp_all
  ultimately show ?thesis using ld by blast
qed

theorem load_odd_rows_unequal_witness:
  "single_file ''data.txt'' artifact_odd (''data'' @ ''.txt'') = Some artifact_odd \<and>
   well_formed float_dec artifact_odd rows_odd \<and> length rows_odd = 2 * 1 + 1 \<and> (0::nat) < 1 \<and>
   (\<exists>ic res. snd (load_flight_data float_dec (single_file ''data.txt'' artifact_odd) ''data'') =
        Inr (ic, res) \<and>
      length (cells ic) = 1 + 1 \<and> length (cells res) = 1 \<and>
      (\<forall>i\<le>1. tl (cells ic ! i) = rows_odd ! (2 * i)) \<and>
      (\<forall>i<1. tl (cells res ! i) = rows_odd ! (2 * i + 1)))"
proof -
  have src: "single_file ''data.txt'' artifact_odd (''data'' @ ''.txt'') = Some artifact_odd"
    by (simp add: single_file_def)
  have wf: "well_formed float_dec artifact_odd rows_odd" by code_simp
  have len: "length rows_odd = 2 * 1 + 1" by (simp add: rows_odd_def)
  have pos: "(0::nat) < 1" by simp
  from load_odd_rows_unequal[of "single_file ''data.txt'' artifact_odd" "''data''" artifact_odd
      float_dec rows_odd 1] src wf len pos
  show ?thesis by blast
qed

text \<open>
  C2, as the claim states it, fails: the artifact \<open>artifact_odd\<close> has three body
  rows, and \<^verbatim>\<open>load_flight_data\<close> returns an initial table of two rows and a final
  table of one row instead of failing.
\<close>

theorem load_odd_rows_counterexample:
  "length (body_tokens artifact_odd) = 3 \<and>
   snd (load_flight_data float_dec (single_file ''data.txt'' artifact_odd) ''data'') =
   Inr (\<lparr>index = [0, 1],
          columns = [''index'', ''Ion N'', ''KE'', ''Y'', ''X'' @ [dq]],
          cells = map (map Num) [[0, 1, 1/2, 0, 0], [2, 2, 1/2, 0, 0]]\<rparr>,
        \<lparr>index = [0],
          columns = [''index'', ''Ion N'', ''KE'', ''Y'', ''X'' @ [dq]],
          cells = map (map Num) [[1, 1, 1/10, 1, 9]]\<rparr>)"
  by code_simp

text \<open>
  C3. For every well-formed artifact with \<open>2n\<close> body rows (the rows that start
  at line offset 12), \<^verbatim>\<open>load_flight_data\<close> returns two tables of \<open>n\<close> rows each;
  under the labels of the header, row \<open>i\<close> of the initial table is body row
  \<open>2i\<close> and row \<open>i\<close> of the final table is body row \<open>2i + 1\<close>. (The first cell
  of a table row is the inserted column of C10.)
\<close>

theorem load_pairs_rows:
  assumes "fs (output_filename @ ''.txt'') = Some lines"
    and "well_formed float_of lines rows"
    and "length rows = 2 * n"
  shows "\<exists>ic res. snd (load_flight_data float_of fs output_filename) = Inr (ic, res) \<and>
     length (cells ic) = n \<and> length (cells res) = n \<and>
     (\<forall>i<n. tl (cells ic ! i) = rows ! (2 * i) \<and> tl (cells res ! i) = rows ! (2 * i + 1))"
proof -
  from assms(3) have "length rows \<noteq> 1" by arith
  with load_well_formed_rows[of fs output_filename lines float_of rows] assms(1,2)
  obtain ic res where
    ld: "snd (load_flight_data float_of fs output_filename) = Inr (ic, res)"
    and li: "length (cells ic) = (length rows + 1) div 2"
    and lr: "length (cells res) = length rows div 2"
    and ni: "\<forall>i. 2 * i < length rows \<longrightarrow> cells ic ! i = Num (real (2 * i)) # rows ! (2 * i)"
    and nr: "\<forall>i. 2 * i + 1 < length rows \<longrightarrow>
                 cells res ! i = Num (real (2 * i + 1)) # rows ! (2 * i + 1)"
    by blast
  have "tl (cells ic ! i) = rows ! (2 * i) \<and> tl (cells res ! i) = rows ! (2 * i + 1)"
    if "i < n" for i
    using that ni nr assms(3) by simp
  moreover have "length (cells ic) = n" "length (cells res) = n"
    using li lr assms(3) by simp_all
  ultimately show ?thesis using ld by blast
qed

theorem load_pairs_rows_witness:
  "single_file ''data.txt'' artifact8 (''data'' @ ''.txt'') = Some artifact8 \<and>
   well_formed float_dec artifact8 rows8 \<and> length rows8 = 2 * 4 \<and>
   (\<exists>ic res. snd (load_flight_data float_dec (single_file ''data.txt'' artifact8) ''data'') =
        Inr (ic, res) \<and>
      length (cells ic) = 4 \<and> length (cells res) = 4 \<and>
      (\<forall>i<4. tl (cells ic ! i) = rows8 ! (2 * i) \<and> tl (cells res ! i) = rows8 ! (2 * i + 1)))"
proof -
  have src: "single_file ''data.txt'' artifact8 (''data'' @ ''.txt'') = Some artifact8"
    by (simp add: single_file_def)
  have wf: "well_formed float_dec artifact8 rows8" by code_simp
  have len: "length rows8 = 2 * 4" by (simp add: rows8_def)
  from load_pairs_rows[of "single_file ''data.txt'' artifact8" "''data''" artifact8
      float_dec rows8 4] src wf len
  show ?thesis by blast
qed

text \<open>
  C4. The scenario of the claim: two ions of initial energy 0.5 whose final
  \<^verbatim>\<open>Y\<close> are 1 and 1, two ions of initial energy 1.5 whose final \<^verbatim>\<open>Y\<close> are 2 and
  4, and the voltages 3000, 100 (no rising pair). The claim expects 4. Under
  the header line \<^verbatim>\<open>"Ion N","KE","Y"\<close> the last label read is \<^verbatim>\<open>Y\<close> with its
  closing quote (see C1), the final table has no column \<^verbatim>\<open>Y\<close>, and
  \<^verbatim>\<open>vmi_cost_function\<close> ends with \<^verbatim>\<open>KeyError\<close>. The same rows with one more field
  after \<^verbatim>\<open>Y\<close> in the header and in the rows give 4.
\<close>

theorem scenario_y_last_key_error:
  "map_sum id (\<lambda>(ic, res). (columns res, getitem ic ''KE''))
     (snd (load_flight_data float_dec (single_file ''data.txt'' artifact_y_last) ''data'')) =
   Inr ([''index'', ''Ion N'', ''KE'', ''Y'' @ [dq]],
        Inr (Some [Num (1/2), Num (1/2), Num (3/2), Num (3/2)])) \<and>
   vmi_cost_function float_dec (single_file ''data.txt'' artifact_y_last) [3000, 100] ''data'' =
     Inl (KeyError ''Y'') \<and>
   vmi_cost_function float_dec (single_file ''data.txt'' artifact8) [3000, 100] ''data'' =
     Inr (Num 4)"
  by code_simp

text \<open>
  C5. The value that \<^verbatim>\<open>vmi_cost_function\<close> returns is the grouping term plus
  500 for each adjacent pair of the voltage vector whose later entry is the
  greater; the amount added depends on the voltages alone. The vector
  3000, 3500, 3200 has one such pair and adds exactly 500.
\<close>

theorem monotonicity_term_additive:
  "vmi_cost_function float_of fs voltages data_filename =
     (if length voltages < 2 then Inl IndexError
      else (case snd (load_flight_data float_of fs data_filename) of
              Inl e \<Rightarrow> Inl e
            | Inr (df_ic, df_res) \<Rightarrow>
                (case grouping_penalty df_ic df_res of
                   Inl e \<Rightarrow> Inl e
                 | Inr g \<Rightarrow> Inr (fadd g (Num (500 * real (rising_pairs voltages))))))) \<and>
   rising_pairs [3000, 3500, 3200] = 1 \<and>
   voltage_loop [3000, 3500, 3200] (Num g) = Num (g + 500)"
proof -
  have "rising_pairs [3000, 3500, 3200] = 1"
    by (simp add: rising_pairs_def upt_rec)
  moreover from this have "voltage_loop [3000, 3500, 3200] (Num g) = Num (g + 500)"
    by (simp add: voltage_loop_count)
  ultimately show ?thesis
    by (simp add: vmi_cost_function_def penalty_of_def voltage_loop_count
             split: sum.splits prod.splits)
qed

text \<open>
  C6, as the code has it. Take any two tables that \<^verbatim>\<open>load_flight_data\<close>
  returns and that have a column \<^verbatim>\<open>KE\<close> (\<open>ke\<close>, of the initial table) and a
  column \<^verbatim>\<open>Y\<close> (\<open>ys\<close>, of the final table). If no initial energy is NaN, every
  initial energy has a final row, every final \<^verbatim>\<open>Y\<close> is finite, and rows of
  equal initial energy have equal final \<^verbatim>\<open>Y\<close>, then the grouping term is
  exactly 0.
\<close>

theorem zero_spread_zero_penalty:
  assumes "snd (load_flight_data float_of fs data_filename) = Inr (df_ic, df_res)"
    and "getitem df_ic ''KE'' = Inr (Some ke)"
    and "getitem df_res ''Y'' = Inr (Some ys)"
    and "\<forall>i<length ke. ke ! i \<noteq> NaN"
    and "\<forall>i<length ke. \<exists>j<length ys. ke ! j = ke ! i"
    and "\<forall>i<length ys. \<exists>v. ys ! i = Num v"
    and "\<forall>i<length ys. \<forall>j<length ys. ke ! i = ke ! j \<longrightarrow> ys ! i = ys ! j"
  shows "grouping_penalty df_ic df_res = Inr (Num 0)"
proof -
  note shape = load_shape[OF assms(1)]
  from getitem_Some[OF assms(2)] have lk: "length ke = length (cells df_ic)" by auto
  from getitem_Some[OF assms(3)] have ly: "length ys = length (cells df_res)" by auto
  from shape(3) lk ly have le: "length ys \<le> length ke" by simp
  have yp: "y_pos df_ic ke df_res e = Inr (group_ys ke ys e)" for e
    using y_pos_dense[OF shape(1,2) refl lk shape(3) assms(3)] .
  have zero: "spread_sq (group_ys ke ys e) = Num 0" if "e \<in> set (unique ke)" for e
  proof -
    from that have "e \<in> set ke" by (simp add: set_unique)
    then obtain i where i: "i < length ke" "ke ! i = e"
      unfolding in_set_conv_nth by blast
    from assms(4) i have real_e: "e \<noteq> NaN" by blast
    from assms(5) i(1) obtain j where "j < length ys" "ke ! j = ke ! i" by blast
    with i(2) have j: "j < length ys" "ke ! j = e" by simp_all
    from j(1) le have jk: "j < length ke" by simp
    from assms(6) j(1) obtain v where v: "ys ! j = Num v" by blast
    have "feq (ke ! j) e" using j(2) real_e by (simp add: feq_def)
    with j(1) jk have "ys ! j \<in> set (group_ys ke ys e)"
      unfolding in_group_ys by blast
    then have nonempty: "group_ys ke ys e \<noteq> []" by auto
    have "y = Num v" if "y \<in> set (group_ys ke ys e)" for y
    proof -
      from that obtain k where k: "k < length ys" "feq (ke ! k) e" "y = ys ! k"
        unfolding in_group_ys by blast
      from k(2) have "ke ! k = e" by (simp add: feq_def)
      with j(2) have "ke ! k = ke ! j" by simp
      moreover from assms(7) k(1) j(1) have "ke ! k = ke ! j \<longrightarrow> ys ! k = ys ! j" by blast
      ultimately show ?thesis using k(3) v by simp
    qed
    then have "\<forall>y \<in> set (group_ys ke ys e). y = Num v" by blast
    with nonempty show ?thesis by (rule spread_sq_constant)
  qed
  have "energy_loop df_ic ke df_res (unique ke) (Num 0) =
        Inr (fold (\<lambda>e q. fadd q (spread_sq (group_ys ke ys e))) (unique ke) (Num 0))"
    by (rule energy_loop_fold) (simp add: yp)
  also have "fold (\<lambda>e q. fadd q (spread_sq (group_ys ke ys e))) (unique ke) (Num 0) = Num 0"
    by (rule fold_fadd_zero) (simp add: zero)
  finally show ?thesis using assms(2) by (simp add: grouping_penalty_def)
qed

theorem zero_spread_zero_penalty_witness:
  "snd (load_flight_data float_dec (single_file ''data.txt'' artifact_focused) ''data'') =
     Inr (ic8, res_focused) \<and>
   getitem ic8 ''KE'' = Inr (Some (map Num [1/2, 1/2, 3/2, 3/2])) \<and>
   getitem res_focused ''Y'' = Inr (Some (map Num [1, 1, 2, 2])) \<and>
   grouping_penalty ic8 res_focused = Inr (Num 0)"
proof -
  let ?ke = "map Num [1/2, 1/2, 3/2, 3/2]"
  let ?ys = "map Num [1, 1, 2, 2]"
  have ld: "snd (load_flight_data float_dec (single_file ''data.txt'' artifact_focused) ''data'') =
     Inr (ic8, res_focused)" by code_simp
  have ke: "getitem ic8 ''KE'' = Inr (Some ?ke)" by code_simp
  have ys: "getitem res_focused ''Y'' = Inr (Some ?ys)" by code_simp
  have h4: "\<forall>i<length ?ke. ?ke ! i \<noteq> NaN"
    by (simp add: All_less_Suc eval_nat_numeral)
  have h5: "\<forall>i<length ?ke. \<exists>j<length ?ys. ?ke ! j = ?ke ! i"
    by auto
  have h6: "\<forall>i<length ?ys. \<exists>v. ?ys ! i = Num v"
    by (simp add: All_less_Suc eval_nat_numeral)
  have h7: "\<forall>i<length ?ys. \<forall>j<length ?ys. ?ke ! i = ?ke ! j \<longrightarrow> ?ys ! i = ?ys ! j"
    by (simp add: All_less_Suc eval_nat_numeral)
  from zero_spread_zero_penalty[OF ld ke ys h4 h5 h6 h7] ld ke ys show ?thesis by blast
qed

text \<open>
  C6, as the claim states it, fails in three ways; in each the condition of
  the claim holds and the grouping term is NaN. In \<open>artifact_lone\<close> (three body
  rows) the energy 1.5 has no final row. In \<open>artifact_inf\<close> the two final \<^verbatim>\<open>Y\<close>
  of the one energy are both infinite, and their spread is NaN. In
  \<open>artifact_nan\<close> an initial energy is NaN, which equals no energy, and all
  final \<^verbatim>\<open>Y\<close> are 1.
\<close>

theorem zero_spread_counterexample:
  "map_sum id (\<lambda>(ic, res). (getitem ic ''KE'', getitem res ''Y'', grouping_penalty ic res))
     (snd (load_flight_data float_dec (single_file ''data.txt'' artifact_lone) ''data'')) =
   Inr (Inr (Some [Num (1/2), Num (3/2)]), Inr (Some [Num 1]), Inr NaN) \<and>
   map_sum id (\<lambda>(ic, res). (getitem ic ''KE'', getitem res ''Y'', grouping_penalty ic res))
     (snd (load_flight_data float_dec (single_file ''data.txt'' artifact_inf) ''data'')) =
   Inr (Inr (Some [Num (1/2), Num (1/2)]), Inr (Some [PosInf, PosInf]), Inr NaN) \<and>
   map_sum id (\<lambda>(ic, res). (getitem ic ''KE'', getitem res ''Y'', grouping_penalty ic res))
     (snd (load_flight_data float_dec (single_file ''data.txt'' artifact_nan) ''data'')) =
   Inr (Inr (Some [NaN, Num (1/2)]), Inr (Some [Num 1, Num 1]), Inr NaN)"
  by code_simp

text \<open>
  C7, as the code has it. The scan takes the labels from the first line that
  holds the marker and reads no further. When no line holds it the scan does
  not fail: the labels are the empty list, the body is read all the same, and
  \<^verbatim>\<open>load_flight_data\<close> fails afterwards, with the error of the body if the body
  is malformed, and otherwise when the table is built without labels.
\<close>

theorem missing_marker_fails_late:
  assumes "fs (output_filename @ ''.txt'') = Some lines"
  shows "header_scan lines =
           (case find (contains marker) lines of
              None \<Rightarrow> []
            | Some l \<Rightarrow> strip_index (split_on (CHR '','') l)) \<and>
         (find (contains marker) lines = None \<longrightarrow>
            (\<exists>e. snd (load_flight_data float_of fs output_filename) = Inl e \<and>
                 (case body_rows float_of lines of
                    Inl e' \<Rightarrow> e = e'
                  | Inr rows \<Rightarrow> e = FrameShapeError \<or> e = FrameDimError)))"
proof (intro conjI impI)
  show "header_scan lines =
           (case find (contains marker) lines of
              None \<Rightarrow> []
            | Some l \<Rightarrow> strip_index (split_on (CHR '','') l))"
    by (rule header_scan_find)
next
  assume none: "find (contains marker) lines = None"
  then have labels: "header_scan lines = []" by (simp add: header_scan_find)
  show "\<exists>e. snd (load_flight_data float_of fs output_filename) = Inl e \<and>
           (case body_rows float_of lines of
              Inl e' \<Rightarrow> e = e'
            | Inr rows \<Rightarrow> e = FrameShapeError \<or> e = FrameDimError)"
  proof (cases "body_rows float_of lines")
    case (Inl e')
    with load_body_error[of fs output_filename lines float_of e'] assms show ?thesis by simp
  next
    case (Inr rows)
    from body_rows_rect(1)[OF Inr] obtain N where "0 < N" "\<forall>r \<in> set rows. length r = N"
      by blast
    from DataFrame_no_labels[OF this(2,1)]
    have "build_tables float_of [] lines = Inl FrameShapeError \<or>
          build_tables float_of [] lines = Inl FrameDimError"
      using Inr by (auto simp: build_tables_def loadtxt_def)
    with assms labels Inr show ?thesis by (auto simp: load_flight_data_unfold)
  qed
qed

theorem missing_marker_fails_late_witness:
  "single_file ''data.txt'' artifact_unmarked (''data'' @ ''.txt'') = Some artifact_unmarked \<and>
   find (contains marker) artifact_unmarked = None \<and>
   header_scan artifact_unmarked = [] \<and>
   snd (load_flight_data float_dec (single_file ''data.txt'' artifact_unmarked) ''data'') =
     Inl FrameShapeError"
proof -
  have src: "single_file ''data.txt'' artifact_unmarked (''data'' @ ''.txt'') =
             Some artifact_unmarked"
    by (simp add: single_file_def)
  have none: "find (contains marker) artifact_unmarked = None" by code_simp
  have body: "body_rows float_dec artifact_unmarked =
              Inr (map (map Num) [[1, 1/2, 0, 0], [1, 1/10, 1, 9]])"
    by code_simp
  have ne: "snd (load_flight_data float_dec (single_file ''data.txt'' artifact_unmarked) ''data'')
            \<noteq> Inl FrameDimError" by code_simp
  from missing_marker_fails_late[of "single_file ''data.txt'' artifact_unmarked" "''data''"
      artifact_unmarked float_dec] src none body ne
  show ?thesis by auto
qed

text \<open>
  C7, as the claim states it, fails: \<open>artifact_unmarked_bad\<close> has no marker line
  and a token that is no number. The failure is the conversion error of the
  numeric reader, the very error of the same body under a header line
  (\<open>artifact_marked_bad\<close>): nothing reports the missing marker.
\<close>

theorem missing_marker_counterexample:
  "find (contains marker) artifact_unmarked_bad = None \<and>
   snd (load_flight_data float_dec (single_file ''data.txt'' artifact_unmarked_bad) ''data'') =
     Inl ConversionError \<and>
   find (contains marker) artifact_marked_bad = Some header4 \<and>
   snd (load_flight_data float_dec (single_file ''data.txt'' artifact_marked_bad) ''data'') =
     Inl ConversionError"
  by code_simp

text \<open>
  C8, as the code has it. If a row of the body holds a token that does not
  convert, \<^verbatim>\<open>load_flight_data\<close> fails with the error of \<^verbatim>\<open>numpy.loadtxt\<close>, passed on
  as it is: the conversion error, or the column-count error when a row of
  another width comes first; the conversion error whenever all rows have the
  same width.
\<close>

theorem bad_token_fails:
  assumes "fs (output_filename @ ''.txt'') = Some lines"
    and "\<exists>r \<in> set (body_tokens lines). \<exists>t \<in> set r. float_of t = None"
  shows "(snd (load_flight_data float_of fs output_filename) = Inl ConversionError \<or>
          snd (load_flight_data float_of fs output_filename) = Inl ColumnCountError) \<and>
         ((\<forall>r \<in> set (body_tokens lines). length r = length (hd (body_tokens lines))) \<longrightarrow>
          snd (load_flight_data float_of fs output_filename) = Inl ConversionError)"
proof (intro conjI impI)
  let ?toks = "body_tokens lines"
  let ?N = "case ?toks of [] \<Rightarrow> 0 | r # _ \<Rightarrow> length r"
  from read_rows_bad_token[OF assms(2), of ?N]
  have "body_rows float_of lines = Inl ConversionError \<or>
        body_rows float_of lines = Inl ColumnCountError"
    by (simp add: body_rows_def Let_def)
  with load_body_error[of fs output_filename lines float_of] assms(1)
  show "snd (load_flight_data float_of fs output_filename) = Inl ConversionError \<or>
        snd (load_flight_data float_of fs output_filename) = Inl ColumnCountError"
    by auto
  assume rect: "\<forall>r \<in> set ?toks. length r = length (hd ?toks)"
  from assms(2) have "?toks \<noteq> []" by auto
  then have "?N = length (hd ?toks)" by (cases ?toks) simp_all
  with rect have "\<forall>r \<in> set ?toks. length r = ?N" by simp
  from read_rows_bad_token_rect[OF assms(2) this]
  have "body_rows float_of lines = Inl ConversionError" by (simp add: body_rows_def Let_def)
  with load_body_error[of fs output_filename lines float_of] assms(1)
  show "snd (load_flight_data float_of fs output_filename) = Inl ConversionError" by simp
qed

theorem bad_token_fails_witness:
  "single_file ''data.txt'' artifact_bad14 (''data'' @ ''.txt'') = Some artifact_bad14 \<and>
   (\<exists>r \<in> set (body_tokens artifact_bad14). \<exists>t \<in> set r. float_dec t = None) \<and>
   snd (load_flight_data float_dec (single_file ''data.txt'' artifact_bad14) ''data'') =
     Inl ConversionError"
proof -
  have src: "single_file ''data.txt'' artifact_bad14 (''data'' @ ''.txt'') = Some artifact_bad14"
    by (simp add: single_file_def)
  have bad: "\<exists>r \<in> set (body_tokens artifact_bad14). \<exists>t \<in> set r. float_dec t = None"
    by code_simp
  have rect: "\<forall>r \<in> set (body_tokens artifact_bad14).
                length r = length (hd (body_tokens artifact_bad14))"
    by code_simp
  from bad_token_fails[of "single_file ''data.txt'' artifact_bad14" "''data''"
      artifact_bad14 float_dec] src bad rect
  show ?thesis by blast
qed

text \<open>
  C8, as the claim states it, fails: the same malformed row stands on line 14
  of \<open>artifact_bad14\<close> and, after an empty line, on line 15 of
  \<open>artifact_bad15\<close> (positions 13 and 14 counted from 0). Both loads fail
  with the same error, so the error does not name the line of the file.
\<close>

theorem bad_token_line_counterexample:
  "artifact_bad14 ! 13 = ''1,abc,1.0,9.0'' @ [nl] \<and>
   artifact_bad15 ! 14 = ''1,abc,1.0,9.0'' @ [nl] \<and>
   snd (load_flight_data float_dec (single_file ''data.txt'' artifact_bad14) ''data'') =
     Inl ConversionError \<and>
   snd (load_flight_data float_dec (single_file ''data.txt'' artifact_bad15) ''data'') =
     Inl ConversionError"
  by code_simp

text \<open>
  C9. \<^verbatim>\<open>load_flight_data\<close> only reads: whatever the store and the file name,
  the store after the call is the store before it, whether the call returns
  tables or fails.
\<close>

theorem load_leaves_store: "fst (load_flight_data float_of fs output_filename) = fs"
  by (simp add: load_flight_data_unfold)



end
